theory Spec2Isabelle
  imports Main "HOL-Library.AList" "HOL-Library.Char_ord" "HOL-Library.List_Lexorder"
    "HOL-Library.Multiset"
begin

unbundle bit_operations_syntax

section \<open>dubplate: immutable validated records\<close>

text \<open>
  A shallow embedding of \<^verbatim>\<open>dubplate/__init__.py\<close>: the class \<^verbatim>\<open>Record\<close>, the
  function \<^verbatim>\<open>generate_hash_index_key\<close> and the date/time conversion helpers behind
  \<^verbatim>\<open>Record.json\<close>. Python dictionaries are association lists in iteration order
  (keys are \<^verbatim>\<open>str\<close>, unique in a well-formed dictionary), exceptions are the left
  summand of a sum type, and the attribute and item protocol of a record is a set of
  functions on an explicit object state.
\<close>

subsection \<open>Values\<close>

text \<open>
  The class variables of a concrete \<^verbatim>\<open>Record\<close> subclass. \<^verbatim>\<open>None\<close> stands for a
  variable the class does not define, so that \<^verbatim>\<open>getattr(self, name, default)\<close> yields
  the default; \<open>rfields\<close> is the class variable \<^verbatim>\<open>fields\<close>. \<^verbatim>\<open>cslots\<close> is what
  \<^verbatim>\<open>self.__slots__\<close> evaluates to (the side attributes).
\<close>

record rclass =
  cname :: string
  cslots :: "string list"
  rfields :: "string list option"
  non_null_fields :: "string list option"
  require_all_fields :: "bool option"
  hash_index_fields :: "string list option"

text \<open>\<^verbatim>\<open>datetime.date\<close> and naive \<^verbatim>\<open>datetime.datetime\<close> values.\<close>

record date =
  year :: nat
  month :: nat
  day :: nat

record datetime = date +
  hour :: nat
  minute :: nat
  second :: nat
  microsecond :: nat

text \<open>
  A \<^verbatim>\<open>Record\<close> instance: its class, the side attributes stored in its slots, the
  slot \<^verbatim>\<open>_initialized\<close> (\<open>False\<close>: not yet set) and the slot \<^verbatim>\<open>__record\<close>.
\<close>

datatype 'v robj = Robj (cls: rclass) (attrs: "(string \<times> 'v) list") (initialized: bool)
  (rdata: "(string \<times> 'v) list")

text \<open>
  The Python values a record can hold. \<open>PSet\<close> lists the elements of a \<^verbatim>\<open>set\<close>;
  floating point numbers are not modelled.
\<close>

datatype pyval =
    PNone
  | PBool bool
  | PInt int
  | PStr string
  | PList "pyval list"
  | PTuple "pyval list"
  | PDict "(string \<times> pyval) list"
  | PSet "pyval list"
  | PDate date
  | PDateTime datetime
  | PRec "pyval robj"

type_synonym pydict = "(string \<times> pyval) list"

datatype error = KeyError string | TypeError string | ValueError string | AttributeError string

subsection \<open>Dictionaries and strings\<close>

text \<open>\<^verbatim>\<open>d.get(key, default)\<close>.\<close>

definition dict_get :: "(string \<times> 'v) list \<Rightarrow> string \<Rightarrow> 'v \<Rightarrow> 'v" where
  "dict_get d key dflt = (case map_of d key of Some v \<Rightarrow> v | None \<Rightarrow> dflt)"

text \<open>
  \<^verbatim>\<open>d.update(pairs)\<close>: each pair is assigned in turn; an existing key keeps its place
  and takes the new value, a new key goes to the end.
\<close>

definition dict_update :: "(string \<times> 'v) list \<Rightarrow> (string \<times> 'v) list \<Rightarrow> (string \<times> 'v) list" where
  "dict_update d pairs = foldl (\<lambda>acc (k, v). AList.update k v acc) d pairs"

text \<open>\<^verbatim>\<open>dict(pairs)\<close> and \<^verbatim>\<open>OrderedDict(pairs)\<close>.\<close>

definition dict_of :: "(string \<times> 'v) list \<Rightarrow> (string \<times> 'v) list" where
  "dict_of pairs = dict_update [] pairs"

text \<open>
  \<^verbatim>\<open>frozendict.copy(**add_or_replace)\<close> of the frozendict package, which builds
  \<^verbatim>\<open>self.__class__(self, **add_or_replace)\<close>.
\<close>

definition fd_copy :: "(string \<times> 'v) list \<Rightarrow> (string \<times> 'v) list \<Rightarrow> (string \<times> 'v) list" where
  "fd_copy d add_or_replace = dict_update (dict_of d) add_or_replace"

text \<open>\<^verbatim>\<open>sep.join(xs)\<close>.\<close>

fun join :: "string \<Rightarrow> string list \<Rightarrow> string" where
  "join sep [] = []"
| "join sep [x] = x"
| "join sep (x # y # ys) = x @ sep @ join sep (y # ys)"

text \<open>A text between single quotes, as \<^verbatim>\<open>"'{}'".format(s)\<close> writes it.\<close>

definition quoted :: "string \<Rightarrow> string" where
  "quoted s = [CHR 0x27] @ s @ [CHR 0x27]"

text \<open>\<^verbatim>\<open>sorted(s)\<close> for a set of strings: by code point, a proper prefix first.\<close>

definition py_sorted :: "string set \<Rightarrow> string list" where
  "py_sorted s = sorted_list_of_set s"

subsection \<open>Validation: \<^verbatim>\<open>Record._set_record\<close>\<close>

text \<open>
  What \<^verbatim>\<open>self.require_all_fields\<close> reads once \<^verbatim>\<open>__init__\<close> has defaulted it:
  the class variable when it is true, \<^verbatim>\<open>False\<close> otherwise.
\<close>

definition self_require_all_fields :: "rclass \<Rightarrow> bool" where
  "self_require_all_fields c = (case require_all_fields c of Some b \<Rightarrow> b | None \<Rightarrow> False)"

text \<open>
  \<^verbatim>\<open>getattr(self, 'fields', [])\<close> and \<^verbatim>\<open>getattr(self, 'non_null_fields', [])\<close>.
\<close>

definition getattr_fields :: "rclass \<Rightarrow> string list" where
  "getattr_fields c = (case rfields c of Some fs \<Rightarrow> fs | None \<Rightarrow> [])"

definition getattr_non_null_fields :: "rclass \<Rightarrow> string list" where
  "getattr_non_null_fields c = (case non_null_fields c of Some ns \<Rightarrow> ns | None \<Rightarrow> [])"

text \<open>
  The first half of \<^verbatim>\<open>_set_record\<close>: non-null fields must be present and not
  \<^verbatim>\<open>None\<close>. The plural of the first message is chosen by the length of the joined
  string \<^verbatim>\<open>missing\<close>, that of the second by the number of names. When
  \<^verbatim>\<open>missing\<close> is the empty string although a name is absent (the name is \<^verbatim>\<open>''\<close>),
  the subscript \<^verbatim>\<open>record[field]\<close> raises \<^verbatim>\<open>KeyError(field)\<close>.
\<close>

definition check_non_null :: "string set \<Rightarrow> pydict \<Rightarrow> error option" where
  "check_non_null non_null record =
    (let keys = set (map fst record) in
     if non_null \<noteq> {} then
       (let missing = join '', '' (py_sorted (non_null - keys)) in
        if missing \<noteq> [] then
          Some (KeyError (''The following field''
            @ (if length missing > 1 then ''s are'' else '' is'')
            @ '' required: '' @ missing))
        else if \<not> non_null \<subseteq> keys then Some (KeyError [])
        else
          (let null_fields = {field \<in> non_null. map_of record field = Some PNone} in
           if null_fields \<noteq> {} then
             Some (KeyError (''The following field''
               @ (if card null_fields > 1 then ''s'' else [])
               @ '' can not be None: '' @ join '', '' (py_sorted null_fields)))
           else None))
     else None)"

text \<open>
  \<^verbatim>\<open>_set_record(self, record)\<close>. \<open>set_iter\<close> is the order in which the
  interpreter iterates over a set of strings; it decides the order of the names in the
  two messages that join a set without sorting it. \<^verbatim>\<open>keys > set(fields)\<close> and
  \<^verbatim>\<open>keys < set(fields)\<close> are Python's proper superset and proper subset tests.
\<close>

definition set_record ::
  "(string set \<Rightarrow> string list) \<Rightarrow> rclass \<Rightarrow> pydict \<Rightarrow> error + pydict" where
  "set_record set_iter c record =
    (let fields' = getattr_fields c;
         non_null = set (getattr_non_null_fields c);
         keys = set (map fst record) in
     case check_non_null non_null record of
       Some e \<Rightarrow> Inl e
     | None \<Rightarrow>
       if fields' \<noteq> [] then
         if set fields' \<subset> keys then
           Inl (KeyError (''Extra keys: '' @ join '', '' (set_iter (keys - set fields'))
             @ ''. Only the following keys can be used in the record: ''
             @ join '', '' fields'))
         else if keys \<subset> set fields' \<and> self_require_all_fields c then
           Inl (KeyError (''Missing keys: '' @ join '', '' (set_iter (set fields' - keys))
             @ ''. The following keys must be used in the record: ''
             @ join '', '' fields'))
         else Inr (dict_of (map (\<lambda>field. (field, dict_get record field PNone)) fields'))
       else Inr (dict_of record))"

subsection \<open>The record object\<close>

text \<open>
  \<^verbatim>\<open>__init__\<close>, called by the subclass constructor after it has stored the side
  attributes \<open>side\<close>: the keyword arguments are validated, stored, and the object
  is sealed. A failed validation leaves no object.
\<close>

definition init ::
  "(string set \<Rightarrow> string list) \<Rightarrow> rclass \<Rightarrow> pydict \<Rightarrow> pydict \<Rightarrow> error + pyval robj" where
  "init set_iter c side kwargs =
    (case set_record set_iter c kwargs of
       Inl e \<Rightarrow> Inl e
     | Inr record \<Rightarrow> Inr (Robj c side True record))"

text \<open>\<^verbatim>\<open>keys()\<close> and \<^verbatim>\<open>__iter__\<close>: the keys of \<^verbatim>\<open>__record\<close> in its order.\<close>

definition keys :: "pyval robj \<Rightarrow> string list" where
  "keys self = map fst (rdata self)"

definition iter :: "pyval robj \<Rightarrow> string list" where
  "iter self = map fst (rdata self)"

text \<open>\<^verbatim>\<open>get(key, default)\<close>.\<close>

definition get :: "pyval robj \<Rightarrow> string \<Rightarrow> pyval \<Rightarrow> pyval" where
  "get self key dflt = dict_get (rdata self) key dflt"

text \<open>\<^verbatim>\<open>copy_record(**kwargs)\<close>.\<close>

definition copy_record ::
  "(string set \<Rightarrow> string list) \<Rightarrow> pyval robj \<Rightarrow> pydict \<Rightarrow> error + pydict" where
  "copy_record set_iter self kwargs = set_record set_iter (cls self) (fd_copy (rdata self) kwargs)"

subsection \<open>Immutability: the attribute and item protocol\<close>

text \<open>
  Each of the four mutators returns the exception it raised, if any, together with the
  object as it is afterwards. \<^verbatim>\<open>object.__setattr__\<close> stores a side attribute in
  its slot. Reading \<^verbatim>\<open>self._initialized\<close> while that slot is unset raises
  \<^verbatim>\<open>AttributeError\<close>, so \<^verbatim>\<open>__delattr__\<close> never reaches its \<^verbatim>\<open>else\<close> branch;
  \<^verbatim>\<open>getattr(self, '_initialized', None)\<close> in \<^verbatim>\<open>__setattr__\<close> does not raise.
\<close>

definition object_setattr :: "pyval robj \<Rightarrow> string \<Rightarrow> pyval \<Rightarrow> error option \<times> pyval robj" where
  "object_setattr self name v =
    (if name \<in> set (cslots (cls self))
     then (None, Robj (cls self) (AList.update name v (attrs self)) (initialized self) (rdata self))
     else (Some (AttributeError (quoted (cname (cls self)) @ '' object has no attribute ''
             @ quoted name)), self))"

definition delattr :: "pyval robj \<Rightarrow> string \<Rightarrow> error option \<times> pyval robj" where
  "delattr self name =
    (if initialized self then
       (Some (TypeError (quoted (cname (cls self))
          @ '' object does not support attribute deletion'')), self)
     else (Some (AttributeError ''_initialized''), self))"

definition setattr :: "pyval robj \<Rightarrow> string \<Rightarrow> pyval \<Rightarrow> error option \<times> pyval robj" where
  "setattr self name v =
    (if initialized self then
       (Some (TypeError (quoted (cname (cls self))
          @ '' object does not support attribute assignment'')), self)
     else object_setattr self name v)"

definition setitem :: "pyval robj \<Rightarrow> string \<Rightarrow> pyval \<Rightarrow> error option \<times> pyval robj" where
  "setitem self name v =
    (Some (TypeError (quoted (cname (cls self))
       @ '' object does not support item assignment'')), self)"

definition delitem :: "pyval robj \<Rightarrow> string \<Rightarrow> error option \<times> pyval robj" where
  "delitem self name =
    (Some (TypeError (quoted (cname (cls self))
       @ '' object does not support item deletion'')), self)"

text \<open>A mutation attempt of a caller, and a run of such attempts on one object.\<close>

datatype mutation =
    SetAttr string pyval
  | DelAttr string
  | SetItem string pyval
  | DelItem string

fun attempt :: "mutation \<Rightarrow> pyval robj \<Rightarrow> error option \<times> pyval robj" where
  "attempt (SetAttr name v) self = setattr self name v"
| "attempt (DelAttr name) self = delattr self name"
| "attempt (SetItem name v) self = setitem self name v"
| "attempt (DelItem name) self = delitem self name"

fun attempts :: "mutation list \<Rightarrow> pyval robj \<Rightarrow> pyval robj" where
  "attempts [] self = self"
| "attempts (m # ms) self = attempts ms (snd (attempt m self))"

subsection \<open>Equality and hashing\<close>







subsection \<open>Hash index keys\<close>

text \<open>Truth value of a value; a record has \<^verbatim>\<open>__len__\<close> and is true when it is not empty.\<close>

fun truthy :: "pyval \<Rightarrow> bool" where
  "truthy PNone = False"
| "truthy (PBool b) = b"
| "truthy (PInt i) = (i \<noteq> 0)"
| "truthy (PStr s) = (s \<noteq> [])"
| "truthy (PList xs) = (xs \<noteq> [])"
| "truthy (PTuple xs) = (xs \<noteq> [])"
| "truthy (PDict d) = (d \<noteq> [])"
| "truthy (PSet xs) = (xs \<noteq> [])"
| "truthy (PDate d) = True"
| "truthy (PDateTime d) = True"
| "truthy (PRec r) = (rdata r \<noteq> [])"

text \<open>\<^verbatim>\<open>isinstance(value, (Sequence, int))\<close>; \<^verbatim>\<open>bool\<close> is a subclass of \<^verbatim>\<open>int\<close>.\<close>

fun is_sequence_or_int :: "pyval \<Rightarrow> bool" where
  "is_sequence_or_int (PBool b) = True"
| "is_sequence_or_int (PInt i) = True"
| "is_sequence_or_int (PStr s) = True"
| "is_sequence_or_int (PList xs) = True"
| "is_sequence_or_int (PTuple xs) = True"
| "is_sequence_or_int v = False"

text \<open>Decimal digits of a number, as \<^verbatim>\<open>str\<close> of an \<^verbatim>\<open>int\<close> writes them.\<close>

fun str_nat :: "nat \<Rightarrow> string" where
  "str_nat n = (if n < 10 then [''0123456789'' ! n] else str_nat (n div 10) @ [''0123456789'' ! (n mod 10)])"

declare str_nat.simps [simp del]

definition str_int :: "int \<Rightarrow> string" where
  "str_int i = (if i < 0 then ''-'' @ str_nat (nat (- i)) else str_nat (nat i))"

text \<open>
  \<^verbatim>\<open>'{}'.format(value)\<close>: a string is written as it is, a number in decimal, a boolean
  by its name; \<open>repr_of\<close> is the interpreter's text for every other value.
\<close>

fun py_format :: "(pyval \<Rightarrow> string) \<Rightarrow> pyval \<Rightarrow> string" where
  "py_format repr_of (PStr s) = s"
| "py_format repr_of (PInt i) = str_int i"
| "py_format repr_of (PBool b) = (if b then ''True'' else ''False'')"
| "py_format repr_of v = repr_of v"

text \<open>The loop of \<^verbatim>\<open>generate_hash_index_key\<close> over \<^verbatim>\<open>fields\<close>.\<close>

fun field_values :: "(pyval \<Rightarrow> string) \<Rightarrow> pydict \<Rightarrow> string list \<Rightarrow> error + string list" where
  "field_values repr_of values_dict [] = Inr []"
| "field_values repr_of values_dict (field # rest) =
    (let v = dict_get values_dict field PNone in
     if \<not> truthy v then field_values repr_of values_dict rest
     else if \<not> is_sequence_or_int v then
       Inl (ValueError (''Fields that return unordered value types cannot be used ''
         @ ''to create hash keys. field: '' @ field))
     else
       (case field_values repr_of values_dict rest of
          Inl e \<Rightarrow> Inl e
        | Inr segments \<Rightarrow> Inr ((field @ '':'' @ py_format repr_of v) # segments)))"

text \<open>
  \<^verbatim>\<open>generate_hash_index_key(obj_type, fields, values_dict, obj_id=None)\<close>; the result
  \<open>None\<close> is Python's \<^verbatim>\<open>None\<close>.
\<close>

definition generate_hash_index_key ::
  "(pyval \<Rightarrow> string) \<Rightarrow> string \<Rightarrow> string list \<Rightarrow> pydict \<Rightarrow> int option \<Rightarrow> error + string option" where
  "generate_hash_index_key repr_of obj_type fields' values_dict obj_id =
    (if fields' \<noteq> [] \<and> values_dict \<noteq> [] then
       (case field_values repr_of values_dict fields' of
          Inl e \<Rightarrow> Inl e
        | Inr segments \<Rightarrow>
            if segments \<noteq> [] then
              (let obj_str =
                 (case obj_id of
                    Some i \<Rightarrow> if i \<noteq> 0 then obj_type @ '':'' @ str_int i else obj_type
                  | None \<Rightarrow> obj_type)
               in Inr (Some (obj_str @ '':'' @ join '':'' segments)))
            else Inr None)
     else Inr None)"

text \<open>
  \<^verbatim>\<open>get_hash_index_key\<close>. \<^verbatim>\<open>a or b or []\<close> takes the first operand that is not
  empty; \<^verbatim>\<open>getattr(self, key, None)\<close> reads a side attribute.
\<close>

definition get_hash_index_key ::
  "(string set \<Rightarrow> string list) \<Rightarrow> (pyval \<Rightarrow> string) \<Rightarrow> pyval robj \<Rightarrow> error + string option" where
  "get_hash_index_key set_iter repr_of self =
    (let class_name = cname (cls self);
         fields' = rfields (cls self);
         key_fields =
           (case hash_index_fields (cls self) of
              Some (h # hs) \<Rightarrow> h # hs
            | _ \<Rightarrow> (case fields' of Some (f # fs) \<Rightarrow> f # fs | _ \<Rightarrow> []));
         slots_dict = dict_of (map (\<lambda>key. (key, dict_get (attrs self) key PNone))
                        (filter (\<lambda>key. key \<in> set (cslots (cls self))) key_fields))
     in case copy_record set_iter self slots_dict of
          Inl e \<Rightarrow> Inl e
        | Inr value_dict \<Rightarrow> generate_hash_index_key repr_of class_name key_fields value_dict None)"

subsection \<open>Serialization: \<^verbatim>\<open>Record.json\<close>\<close>

text \<open>A number written with leading zeros, as \<^verbatim>\<open>'%04d'\<close> and \<^verbatim>\<open>'%02d'\<close> do.\<close>

definition zero_pad :: "nat \<Rightarrow> nat \<Rightarrow> string" where
  "zero_pad width n = replicate (width - length (str_nat n)) CHR ''0'' @ str_nat n"

text \<open>\<^verbatim>\<open>date.isoformat()\<close>: \<^verbatim>\<open>YYYY-MM-DD\<close>.\<close>

definition date_isoformat :: "'a date_scheme \<Rightarrow> string" where
  "date_isoformat d =
     zero_pad 4 (year d) @ ''-'' @ zero_pad 2 (month d) @ ''-'' @ zero_pad 2 (day d)"

text \<open>
  \<^verbatim>\<open>datetime.isoformat()\<close> of a naive value: \<^verbatim>\<open>YYYY-MM-DDTHH:MM:SS\<close>, followed by the
  microseconds only when they are not 0.
\<close>

definition datetime_isoformat :: "datetime \<Rightarrow> string" where
  "datetime_isoformat dt =
     date_isoformat dt @ ''T'' @ zero_pad 2 (hour dt) @ '':'' @ zero_pad 2 (minute dt)
     @ '':'' @ zero_pad 2 (second dt)
     @ (if microsecond dt \<noteq> 0 then ''.'' @ zero_pad 6 (microsecond dt) else [])"

text \<open>\<^verbatim>\<open>_convert_datetime(val)\<close>; \<^verbatim>\<open>datetime\<close> is tested before \<^verbatim>\<open>date\<close>.\<close>

fun convert_datetime :: "pyval \<Rightarrow> pyval" where
  "convert_datetime (PDateTime val) = PStr (datetime_isoformat (val\<lparr>microsecond := 0\<rparr>))"
| "convert_datetime (PDate val) = PStr (date_isoformat val)"
| "convert_datetime val = val"

text \<open>\<^verbatim>\<open>_convert_list_datetime(lst)\<close>: each element is converted, none is descended into.\<close>

definition convert_list_datetime :: "pyval list \<Rightarrow> pyval list" where
  "convert_list_datetime lst = map convert_datetime lst"

text \<open>
  The outcome of a loop whose body may raise, given the outcome of each round: the first
  exception, or the values of all rounds.
\<close>

fun collect :: "('e + 'a) list \<Rightarrow> 'e + 'a list" where
  "collect [] = Inr []"
| "collect (x # xs) =
    (case x of
       Inl e \<Rightarrow> Inl e
     | Inr v \<Rightarrow> (case collect xs of Inl e \<Rightarrow> Inl e | Inr vs \<Rightarrow> Inr (v # vs)))"

text \<open>
  The nesting depth of a value, by which the recursion of the serializer terminates. A
  record counts for two levels: its data is copied and converted before it is encoded.
\<close>

definition max_list :: "nat list \<Rightarrow> nat" where
  "max_list ns = foldr max ns 0"

fun depth :: "pyval \<Rightarrow> nat" where
  "depth (PList xs) = Suc (max_list (map depth xs))"
| "depth (PTuple xs) = Suc (max_list (map depth xs))"
| "depth (PSet xs) = Suc (max_list (map depth xs))"
| "depth (PDict d) = Suc (max_list (map (\<lambda>kv. depth (snd kv)) d))"
| "depth (PRec (Robj c a i d)) = Suc (Suc (max_list (map (\<lambda>kv. depth (snd kv)) d)))"
| "depth v = 0"

text \<open>
  Facts for the termination proofs: \<^verbatim>\<open>copy_record()\<close> returns values of the record
  or \<^verbatim>\<open>None\<close>, so its result is no deeper than the record's data.
\<close>

lemma values_update: "set (AList.update k v d) \<subseteq> insert (k, v) (set d)"
  by (induction d) auto

lemma values_dict_update: "set (dict_update d ps) \<subseteq> set d \<union> set ps"
proof (induction ps arbitrary: d)
  case Nil
  then show ?case by (simp add: dict_update_def)
next
  case (Cons p ps)
  show ?case
    using Cons.IH [of "AList.update (fst p) (snd p) d"] values_update [of "fst p" "snd p" d]
    by (auto simp: dict_update_def case_prod_beta)
qed

lemma max_list_le_iff: "max_list ns \<le> n \<longleftrightarrow> (\<forall>m \<in> set ns. m \<le> n)"
  by (induction ns) (auto simp: max_list_def)

lemma max_list_ge: "m \<in> set ns \<Longrightarrow> m \<le> max_list ns"
  using max_list_le_iff [of ns "max_list ns"] by simp

lemma set_record_values:
  assumes "set_record set_iter c record = Inr d" "(k, v) \<in> set d"
  shows "v = PNone \<or> (\<exists>k'. (k', v) \<in> set record)"
proof (cases "getattr_fields c = []")
  case True
  with assms(1) have "d = dict_of record"
    by (auto simp: set_record_def Let_def split: option.splits)
  with assms(2) values_dict_update [of "[]" "record"] show ?thesis
    by (auto simp: dict_of_def)
next
  case False
  with assms(1)
  have "d = dict_of (map (\<lambda>field. (field, dict_get record field PNone)) (getattr_fields c))"
    by (auto simp: set_record_def Let_def split: option.splits if_splits)
  with assms(2)
    values_dict_update [of "[]" "map (\<lambda>field. (field, dict_get record field PNone)) (getattr_fields c)"]
  obtain f where "v = dict_get record f PNone" by (auto simp: dict_of_def)
  then show ?thesis
    by (auto simp: dict_get_def split: option.splits dest: map_of_SomeD)
qed

lemma copy_record_values:
  assumes "copy_record set_iter self [] = Inr d" "(k, v) \<in> set d"
  shows "v = PNone \<or> (\<exists>k'. (k', v) \<in> set (rdata self))"
proof -
  from set_record_values [OF assms [unfolded copy_record_def]]
  have "v = PNone \<or> (\<exists>k'. (k', v) \<in> set (fd_copy (rdata self) []))" .
  moreover have "set (fd_copy (rdata self) []) \<subseteq> set (rdata self)"
    using values_dict_update [of "[]" "rdata self"]
    by (simp add: fd_copy_def dict_of_def dict_update_def)
  ultimately show ?thesis by blast
qed

lemma copy_record_depth:
  assumes "copy_record set_iter self [] = Inr d"
  shows "max_list (map (\<lambda>kv. depth (snd kv)) d) \<le> max_list (map (\<lambda>kv. depth (snd kv)) (rdata self))"
proof -
  have "depth (snd kv) \<le> max_list (map (\<lambda>kv. depth (snd kv)) (rdata self))" if "kv \<in> set d" for kv
  proof -
    obtain k v where kv: "kv = (k, v)" by (cases kv)
    from copy_record_values [OF assms, of k v] that kv
    consider "v = PNone" | k' where "(k', v) \<in> set (rdata self)" by blast
    then show ?thesis
    proof cases
      case 1
      then show ?thesis by (simp add: kv)
    next
      case 2
      then have "depth (snd (k', v)) \<in> set (map (\<lambda>kv. depth (snd kv)) (rdata self))"
        by (intro image_eqI [where x = "(k', v)"] | simp)+
      then show ?thesis using max_list_ge kv by fastforce
    qed
  qed
  then show ?thesis by (simp add: max_list_le_iff)
qed

text \<open>
  \<^verbatim>\<open>_convert_dict_datetime(inputdict)\<close>. The loop visits the items in order; a list or
  a tuple becomes the list of its converted elements, a \<^verbatim>\<open>dict\<close> and the copy of a
  record are converted recursively, any other value goes through
  \<^verbatim>\<open>_convert_datetime\<close>. \<^verbatim>\<open>val.copy_record()\<close> validates again and may raise.
\<close>

function convert_dict_datetime :: "(string set \<Rightarrow> string list) \<Rightarrow> pydict \<Rightarrow> error + pydict" where
  "convert_dict_datetime set_iter inputdict =
    (case collect (map (\<lambda>(key, val).
        (case val of
           PList lst \<Rightarrow> Inr (key, PList (convert_list_datetime lst))
         | PTuple tpl \<Rightarrow> Inr (key, PList (convert_list_datetime tpl))
         | PDict d \<Rightarrow>
             (case convert_dict_datetime set_iter d of
                Inl e \<Rightarrow> Inl e
              | Inr rdict \<Rightarrow> Inr (key, PDict rdict))
         | PRec r \<Rightarrow>
             (case copy_record set_iter r [] of
                Inl e \<Rightarrow> Inl e
              | Inr d \<Rightarrow>
                  (case convert_dict_datetime set_iter d of
                     Inl e \<Rightarrow> Inl e
                   | Inr rdict \<Rightarrow> Inr (key, PDict rdict)))
         | _ \<Rightarrow> Inr (key, convert_datetime val))) inputdict) of
       Inl e \<Rightarrow> Inl e
     | Inr pairs \<Rightarrow> Inr (dict_of pairs))"
  by pat_completeness auto
termination
proof (relation "measure (\<lambda>(set_iter, d). max_list (map (\<lambda>kv. depth (snd kv)) d))")
  show "wf (measure (\<lambda>(set_iter, d). max_list (map (\<lambda>kv. depth (snd kv)) d)))" by simp
next
  fix set_iter :: "string set \<Rightarrow> string list" and inputdict :: pydict and x key val d
  assume "x \<in> set inputdict" "(key, val) = x" "val = PDict d"
  then have "depth (snd (key, PDict d)) \<in> set (map (\<lambda>kv. depth (snd kv)) inputdict)"
    by (intro image_eqI [where x = "(key, PDict d)"] | simp)+
  from max_list_ge [OF this]
  show "((set_iter, d), (set_iter, inputdict))
      \<in> measure (\<lambda>(set_iter, d). max_list (map (\<lambda>kv. depth (snd kv)) d))"
    by simp
next
  fix set_iter :: "string set \<Rightarrow> string list" and inputdict :: pydict and x key val r d
  assume a: "x \<in> set inputdict" "(key, val) = x" "val = PRec r"
    "copy_record set_iter r [] = Inr d"
  then have "depth (snd (key, PRec r)) \<in> set (map (\<lambda>kv. depth (snd kv)) inputdict)"
    by (intro image_eqI [where x = "(key, PRec r)"] | simp)+
  from max_list_ge [OF this] copy_record_depth [OF a(4)]
  show "((set_iter, d), (set_iter, inputdict))
      \<in> measure (\<lambda>(set_iter, d). max_list (map (\<lambda>kv. depth (snd kv)) d))"
    by (cases r) simp
qed

declare convert_dict_datetime.simps [simp del]

text \<open>The body of that loop under a name of its own, for the proofs.\<close>

definition convert_item :: "(string set \<Rightarrow> string list) \<Rightarrow> string \<times> pyval \<Rightarrow> error + string \<times> pyval" where
  "convert_item set_iter = (\<lambda>(key, val).
        (case val of
           PList lst \<Rightarrow> Inr (key, PList (convert_list_datetime lst))
         | PTuple tpl \<Rightarrow> Inr (key, PList (convert_list_datetime tpl))
         | PDict d \<Rightarrow>
             (case convert_dict_datetime set_iter d of
                Inl e \<Rightarrow> Inl e
              | Inr rdict \<Rightarrow> Inr (key, PDict rdict))
         | PRec r \<Rightarrow>
             (case copy_record set_iter r [] of
                Inl e \<Rightarrow> Inl e
              | Inr d \<Rightarrow>
                  (case convert_dict_datetime set_iter d of
                     Inl e \<Rightarrow> Inl e
                   | Inr rdict \<Rightarrow> Inr (key, PDict rdict)))
         | _ \<Rightarrow> Inr (key, convert_datetime val)))"

lemma convert_dict_datetime_unfold:
  "convert_dict_datetime set_iter inputdict =
    (case collect (map (convert_item set_iter) inputdict) of
       Inl e \<Rightarrow> Inl e
     | Inr pairs \<Rightarrow> Inr (dict_of pairs))"
  by (subst convert_dict_datetime.simps) (simp add: convert_item_def)

lemma collect_map_Inr_id: "collect (map Inr vs) = Inr vs"
  by (induction vs) simp_all

lemma collect_InrD: "collect xs = Inr vs \<Longrightarrow> xs = map Inr vs"
  by (induction xs arbitrary: vs) (auto split: sum.splits)

lemma collect_Inr_iff: "collect xs = Inr vs \<longleftrightarrow> xs = map Inr vs"
  using collect_map_Inr_id collect_InrD by metis


text \<open>The depth of the deepest value of a dictionary.\<close>

definition dict_depth :: "pydict \<Rightarrow> nat" where
  "dict_depth d = max_list (map (\<lambda>kv. depth (snd kv)) d)"

lemma dict_depth_le_iff: "dict_depth d \<le> n \<longleftrightarrow> (\<forall>(k, v) \<in> set d. depth v \<le> n)"
  by (auto simp: dict_depth_def max_list_le_iff)

lemma depth_convert_datetime: "depth (convert_datetime v) \<le> depth v"
  by (cases v) simp_all

lemma depth_convert_list: "depth (PList (convert_list_datetime xs)) \<le> Suc (max_list (map depth xs))"
proof -
  have "depth (convert_datetime x) \<le> max_list (map depth xs)" if "x \<in> set xs" for x
    using depth_convert_datetime [of x] max_list_ge [of "depth x" "map depth xs"] that by force
  then show ?thesis by (auto simp: convert_list_datetime_def max_list_le_iff)
qed

lemma depth_PRec: "depth (PRec r) = Suc (Suc (dict_depth (rdata r)))"
  by (cases r) (simp add: dict_depth_def)

lemma convert_dict_datetime_depth:
  "convert_dict_datetime set_iter d = Inr rd \<Longrightarrow> dict_depth rd \<le> dict_depth d"
proof (induction set_iter d arbitrary: rd rule: convert_dict_datetime.induct)
  case (1 set_iter inputdict)
  from "1.prems" obtain pairs where p: "collect (map (convert_item set_iter) inputdict) = Inr pairs"
    and rd: "rd = dict_of pairs"
    by (auto simp: convert_dict_datetime_unfold split: sum.splits)
  from p have m: "map (convert_item set_iter) inputdict = map Inr pairs"
    by (simp add: collect_Inr_iff)
  have item: "depth w \<le> dict_depth inputdict" if "(k, w) \<in> set pairs" for k w
  proof -
    from that have "Inr (k, w) \<in> set (map (convert_item set_iter) inputdict)"
      unfolding m by simp
    then obtain key val where kv: "(key, val) \<in> set inputdict"
      and c: "convert_item set_iter (key, val) = Inr (k, w)" by auto
    from kv have le: "depth val \<le> dict_depth inputdict"
      using dict_depth_le_iff [of inputdict "dict_depth inputdict"] by auto
    have "depth w \<le> depth val"
    proof (cases val)
      case (PList lst)
      with c show ?thesis using depth_convert_list [of lst] by (auto simp: convert_item_def)
    next
      case (PTuple tpl)
      with c show ?thesis using depth_convert_list [of tpl] by (auto simp: convert_item_def)
    next
      case (PDict d')
      with c obtain rdict where r: "convert_dict_datetime set_iter d' = Inr rdict" "w = PDict rdict"
        by (auto simp: convert_item_def split: sum.splits)
      from "1.IH"(1) [OF kv refl PDict r(1)] r(2) PDict show ?thesis
        by (simp add: dict_depth_def)
    next
      case (PRec r)
      with c obtain d' rdict where r: "copy_record set_iter r [] = Inr d'"
        "convert_dict_datetime set_iter d' = Inr rdict" "w = PDict rdict"
        by (auto simp: convert_item_def split: sum.splits)
      from "1.IH"(2) [OF kv refl PRec r(1,2)] copy_record_depth [OF r(1)] r(3) PRec
      show ?thesis by (simp add: dict_depth_def depth_PRec)
    qed (use c depth_convert_datetime [of val] in \<open>auto simp: convert_item_def\<close>)
    with le show ?thesis by simp
  qed
  have "set rd \<subseteq> set pairs"
    using values_dict_update [of "[]" pairs] by (simp add: rd dict_of_def)
  with item show ?case by (auto simp: dict_depth_le_iff)
qed

text \<open>
  The JSON document that \<^verbatim>\<open>json.JSONEncoder.encode\<close> writes. Its text is the standard
  rendering of this tree and is not modelled.
\<close>

datatype json =
    JNull
  | JBool bool
  | JInt int
  | JStr string
  | JArr "json list"
  | JObj "(string \<times> json) list"

text \<open>The type name in the message of an \<^verbatim>\<open>AttributeError\<close>.\<close>

fun type_name :: "pyval \<Rightarrow> string" where
  "type_name PNone = ''NoneType''"
| "type_name (PBool b) = ''bool''"
| "type_name (PInt i) = ''int''"
| "type_name (PStr s) = ''str''"
| "type_name (PList xs) = ''list''"
| "type_name (PTuple xs) = ''tuple''"
| "type_name (PDict d) = ''dict''"
| "type_name (PSet xs) = ''set''"
| "type_name (PDate d) = ''datetime.date''"
| "type_name (PDateTime d) = ''datetime.datetime''"
| "type_name (PRec r) = cname (cls r)"

text \<open>
  \<^verbatim>\<open>RecordJSONEncoder.default(record)\<close>: \<^verbatim>\<open>record.copy_record()\<close>, then
  \<^verbatim>\<open>_convert_dict_datetime\<close>. A value that is not a record has no method
  \<^verbatim>\<open>copy_record\<close>.
\<close>

definition encoder_default :: "(string set \<Rightarrow> string list) \<Rightarrow> pyval \<Rightarrow> error + pyval" where
  "encoder_default set_iter record =
    (case record of
       PRec r \<Rightarrow>
         (case copy_record set_iter r [] of
            Inl e \<Rightarrow> Inl e
          | Inr rdict \<Rightarrow>
              (case convert_dict_datetime set_iter rdict of
                 Inl e \<Rightarrow> Inl e
               | Inr converted \<Rightarrow> Inr (PDict converted)))
     | _ \<Rightarrow> Inl (AttributeError (quoted (type_name record) @ '' object has no attribute ''
              @ quoted ''copy_record'')))"

lemma encoder_default_depth:
  assumes "encoder_default set_iter v = Inr v'"
  shows "depth v' < depth v"
proof (cases v)
  case (PRec r)
  with assms obtain d rd where d: "copy_record set_iter r [] = Inr d"
    "convert_dict_datetime set_iter d = Inr rd" "v' = PDict rd"
    by (auto simp: encoder_default_def split: sum.splits)
  from convert_dict_datetime_depth [OF d(2)] copy_record_depth [OF d(1)]
  show ?thesis by (simp add: d(3) PRec depth_PRec dict_depth_def)
qed (use assms in \<open>simp_all add: encoder_default_def\<close>)

text \<open>
  The traversal of \<^verbatim>\<open>json.JSONEncoder\<close>: \<^verbatim>\<open>None\<close>, booleans, integers, strings,
  lists, tuples and dictionaries are encoded as they are; for any other object the
  encoder calls \<^verbatim>\<open>default\<close> and encodes what it returns.
\<close>

function encode :: "(string set \<Rightarrow> string list) \<Rightarrow> pyval \<Rightarrow> error + json" where
  "encode set_iter PNone = Inr JNull"
| "encode set_iter (PBool b) = Inr (JBool b)"
| "encode set_iter (PInt i) = Inr (JInt i)"
| "encode set_iter (PStr s) = Inr (JStr s)"
| "encode set_iter (PList xs) =
    (case collect (map (encode set_iter) xs) of Inl e \<Rightarrow> Inl e | Inr js \<Rightarrow> Inr (JArr js))"
| "encode set_iter (PTuple xs) =
    (case collect (map (encode set_iter) xs) of Inl e \<Rightarrow> Inl e | Inr js \<Rightarrow> Inr (JArr js))"
| "encode set_iter (PDict d) =
    (case collect (map (\<lambda>(key, val).
        (case encode set_iter val of Inl e \<Rightarrow> Inl e | Inr j \<Rightarrow> Inr (key, j))) d) of
       Inl e \<Rightarrow> Inl e
     | Inr members \<Rightarrow> Inr (JObj members))"
| "encode set_iter (PSet xs) =
    (case encoder_default set_iter (PSet xs) of Inl e \<Rightarrow> Inl e | Inr v \<Rightarrow> encode set_iter v)"
| "encode set_iter (PDate d) =
    (case encoder_default set_iter (PDate d) of Inl e \<Rightarrow> Inl e | Inr v \<Rightarrow> encode set_iter v)"
| "encode set_iter (PDateTime d) =
    (case encoder_default set_iter (PDateTime d) of Inl e \<Rightarrow> Inl e | Inr v \<Rightarrow> encode set_iter v)"
| "encode set_iter (PRec r) =
    (case encoder_default set_iter (PRec r) of Inl e \<Rightarrow> Inl e | Inr v \<Rightarrow> encode set_iter v)"
  by pat_completeness auto
termination
proof (relation "measure (\<lambda>(set_iter, v). depth v)")
  fix set_iter :: "string set \<Rightarrow> string list" and d :: pydict and x key val
  assume "x \<in> set d" "(key, val) = x"
  then have "depth (snd (key, val)) \<in> set (map (\<lambda>kv. depth (snd kv)) d)"
    by (intro image_eqI [where x = "(key, val)"] | simp)+
  from max_list_ge [OF this]
  show "((set_iter, val), (set_iter, PDict d)) \<in> measure (\<lambda>(set_iter, v). depth v)" by simp
qed (auto simp: less_Suc_eq_le max_list_ge dest: encoder_default_depth)

text \<open>\<^verbatim>\<open>Record.json()\<close>: \<^verbatim>\<open>RecordJSONEncoder().encode(self)\<close>.\<close>

definition json :: "(string set \<Rightarrow> string list) \<Rightarrow> pyval robj \<Rightarrow> error + json" where
  "json set_iter self = encode set_iter (PRec self)"

subsection \<open>The serializer of the specification\<close>

text \<open>
  The structure that section 4.4 of the specification describes, following its words: a
  date-time is its ISO-8601 text with the microseconds set to zero, a date its ISO-8601
  text, a list or tuple the array of its normalized elements, a mapping the object of
  its normalized values, a record the object of its own normalized data, and every other
  value is passed through. A set has no JSON encoding.
\<close>

fun is_temporal :: "pyval \<Rightarrow> bool" where
  "is_temporal (PDate d) = True"
| "is_temporal (PDateTime d) = True"
| "is_temporal v = False"


text \<open>
  The values on which \<^verbatim>\<open>json()\<close> is compared with the specification. \<open>m\<close> says
  whether the value is a value of a mapping that \<^verbatim>\<open>_convert_dict_datetime\<close> converts
  (the data of a record, a \<^verbatim>\<open>dict\<close> in such a mapping). There a date or date-time may
  stand by itself or as an element of a list or tuple. Everything else inside a list or
  tuple is encoded as it is and must hold no date or date-time outside records. A nested
  \<^verbatim>\<open>dict\<close> has unique keys, the copy of a nested record is its data, and no value is
  a set.
\<close>

fun serializable :: "(string set \<Rightarrow> string list) \<Rightarrow> bool \<Rightarrow> pyval \<Rightarrow> bool" where
  "serializable set_iter m PNone = True"
| "serializable set_iter m (PBool b) = True"
| "serializable set_iter m (PInt i) = True"
| "serializable set_iter m (PStr s) = True"
| "serializable set_iter m (PDate d) = m"
| "serializable set_iter m (PDateTime d) = m"
| "serializable set_iter m (PList xs) =
     list_all (\<lambda>x. (m \<and> is_temporal x) \<or> serializable set_iter False x) xs"
| "serializable set_iter m (PTuple xs) =
     list_all (\<lambda>x. (m \<and> is_temporal x) \<or> serializable set_iter False x) xs"
| "serializable set_iter m (PDict d) =
     (distinct (map fst d) \<and> list_all (\<lambda>(key, val). serializable set_iter m val) d)"
| "serializable set_iter m (PRec (Robj c a i d)) =
     (copy_record set_iter (Robj c a i d) [] = Inr d
      \<and> list_all (\<lambda>(key, val). serializable set_iter True val) d)"
| "serializable set_iter m (PSet xs) = False"

subsection \<open>The record classes of the test suite\<close>

text \<open>The subclasses of \<^verbatim>\<open>tests/test_dubplate.py\<close>, all with the slots of \<^verbatim>\<open>TstRecord\<close>.\<close>

definition TstRecord :: rclass where
  "TstRecord = \<lparr>cname = ''TstRecord'', cslots = [''service'', ''test''], rfields = None,
     non_null_fields = None, require_all_fields = None, hash_index_fields = None\<rparr>"

definition FieldRecord :: rclass where
  "FieldRecord = \<lparr>cname = ''FieldRecord'', cslots = [''service'', ''test''],
     rfields = Some [''a'', ''b'', ''c''], non_null_fields = Some [''a'', ''b''],
     require_all_fields = None, hash_index_fields = None\<rparr>"


definition HashIndexSlotsRecord :: rclass where
  "HashIndexSlotsRecord = \<lparr>cname = ''HashIndexSlotsRecord'', cslots = [''service'', ''test''],
     rfields = None, non_null_fields = None,
     require_all_fields = None, hash_index_fields = Some [''test'', ''a'', ''b'']\<rparr>"

text \<open>The class \<^verbatim>\<open>Book\<close> of the docstring of \<^verbatim>\<open>Record\<close>.\<close>

definition Book :: rclass where
  "Book = \<lparr>cname = ''Book'', cslots = [''supplier'', ''price'', ''isbn''],
     rfields = Some [''author'', ''title'', ''type''], non_null_fields = Some [''title''],
     require_all_fields = None, hash_index_fields = None\<rparr>"

text \<open>
  A text for the values that \<open>py_format\<close> leaves to the interpreter; the examples in
  this theory format strings and integers only.
\<close>

definition plain_repr :: "pyval \<Rightarrow> string" where
  "plain_repr v = []"

text \<open>The side attributes \<^verbatim>\<open>service\<close> and \<^verbatim>\<open>test\<close> as the tests pass them.\<close>

definition side_attrs :: "pyval \<Rightarrow> pyval \<Rightarrow> pydict" where
  "side_attrs service test = [(''service'', service), (''test'', test)]"




section \<open>Properties\<close>

subsection \<open>Dictionaries\<close>

lemma update_fresh: "k \<notin> fst ` set d \<Longrightarrow> AList.update k v d = d @ [(k, v)]"
  by (induction d) auto

lemma dict_update_append:
  "distinct (map fst (d @ ps)) \<Longrightarrow> dict_update d ps = d @ ps"
proof (induction ps arbitrary: d)
  case Nil
  then show ?case by (simp add: dict_update_def)
next
  case (Cons p ps)
  obtain k v where p: "p = (k, v)" by (cases p)
  from Cons.prems p have fresh: "k \<notin> fst ` set d" by auto
  from Cons.prems p have "distinct (map fst ((d @ [(k, v)]) @ ps))" by auto
  from Cons.IH [OF this] have "dict_update (d @ [(k, v)]) ps = (d @ [(k, v)]) @ ps" .
  with fresh p show ?case by (simp add: dict_update_def update_fresh)
qed

lemma dict_of_distinct: "distinct (map fst ps) \<Longrightarrow> dict_of ps = ps"
  using dict_update_append [of "[]" ps] by (simp add: dict_of_def)

lemma distinct_dict_update:
  "distinct (map fst d) \<Longrightarrow> distinct (map fst (dict_update d ps))"
proof (induction ps arbitrary: d)
  case Nil
  then show ?case by (simp add: dict_update_def)
next
  case (Cons p ps)
  have "distinct (map fst (AList.update (fst p) (snd p) d))"
    using Cons.prems by (rule distinct_update)
  from Cons.IH [OF this] show ?case by (simp add: dict_update_def case_prod_beta)
qed

lemma distinct_dict_of: "distinct (map fst (dict_of ps))"
  by (simp add: dict_of_def distinct_dict_update)

lemma map_of_dict_update: "map_of (dict_update d ps) = map_of d ++ map_of (rev ps)"
proof (induction ps arbitrary: d)
  case Nil
  then show ?case by (simp add: dict_update_def)
next
  case (Cons p ps)
  have "map_of (dict_update d (p # ps)) = map_of (AList.update (fst p) (snd p) d) ++ map_of (rev ps)"
    using Cons.IH [of "AList.update (fst p) (snd p) d"] by (simp add: dict_update_def case_prod_beta)
  also have "\<dots> = map_of d ++ map_of (rev (p # ps))"
    by (rule ext) (simp add: update_conv' map_add_def split: option.splits)
  finally show ?case .
qed

lemma keys_dict_update: "fst ` set (dict_update d ps) = fst ` set d \<union> fst ` set ps"
proof (induction ps arbitrary: d)
  case Nil
  then show ?case by (simp add: dict_update_def)
next
  case (Cons p ps)
  show ?case
    using Cons.IH [of "AList.update (fst p) (snd p) d"]
    by (auto simp: dict_update_def case_prod_beta dom_update)
qed

subsection \<open>Validation\<close>

lemma keys_dom: "fst ` set d = dom (map_of d)"
  by (simp add: dom_map_of_conv_image_fst)

lemma check_non_null_cong:
  "map_of a = map_of b \<Longrightarrow> check_non_null nn a = check_non_null nn b"
proof -
  assume eq: "map_of a = map_of b"
  then have k: "fst ` set a = fst ` set b" by (simp add: keys_dom)
  show ?thesis unfolding check_non_null_def Let_def set_map k eq by (rule refl)
qed

lemma set_record_cong_fields:
  assumes "map_of a = map_of b" "rfields c = Some fs" "fs \<noteq> []"
  shows "set_record si c a = set_record si c b"
proof -
  from assms(1) have k: "fst ` set a = fst ` set b" by (simp add: keys_dom)
  have g: "dict_get a = dict_get b" using assms(1) by (intro ext) (simp add: dict_get_def)
  show ?thesis
    unfolding set_record_def Let_def set_map k g check_non_null_cong [OF assms(1)]
    using assms(2,3) by (simp add: getattr_fields_def)
qed

lemma set_record_no_fields:
  assumes "rfields c = None \<or> rfields c = Some []"
  shows "set_record si c a =
    (case check_non_null (set (getattr_non_null_fields c)) a of
       Some e \<Rightarrow> Inl e | None \<Rightarrow> Inr (dict_of a))"
  using assms by (auto simp: set_record_def getattr_fields_def split: option.splits)

lemma check_non_null_None_iff:
  "check_non_null nn raw = None \<longleftrightarrow>
     (\<forall>f \<in> nn. \<exists>v. map_of raw f = Some v \<and> v \<noteq> PNone)"
proof (cases "nn \<subseteq> fst ` set raw")
  case True
  then have e: "nn - fst ` set raw = {}" by blast
  have m: "join '', '' (py_sorted (nn - fst ` set raw)) = []"
    unfolding py_sorted_def e by simp
  have dom: "\<And>f. f \<in> nn \<Longrightarrow> \<exists>v. map_of raw f = Some v"
    using True by (metis keys_dom domD subsetD)
  have "check_non_null nn raw = None \<longleftrightarrow> {f \<in> nn. map_of raw f = Some PNone} = {}"
    unfolding check_non_null_def Let_def set_map m using True by auto
  also have "\<dots> \<longleftrightarrow> (\<forall>f \<in> nn. \<exists>v. map_of raw f = Some v \<and> v \<noteq> PNone)"
    using dom by fastforce
  finally show ?thesis .
next
  case False
  then obtain f where f: "f \<in> nn" "f \<notin> fst ` set raw" by blast
  then have "map_of raw f = None" by (simp add: keys_dom domIff)
  with f have rhs: "\<not> (\<forall>f \<in> nn. \<exists>v. map_of raw f = Some v \<and> v \<noteq> PNone)"
    by (metis option.distinct(1))
  have "nn \<noteq> {}" using f by blast
  then have lhs: "check_non_null nn raw \<noteq> None"
    unfolding check_non_null_def Let_def set_map using False by auto
  from lhs rhs show ?thesis by blast
qed

lemma set_record_fields_Inr:
  assumes "rfields c = Some fs" "fs \<noteq> []" "set_record si c raw = Inr d"
  shows "d = dict_of (map (\<lambda>f. (f, dict_get raw f PNone)) fs)"
  using assms by (auto simp: set_record_def getattr_fields_def Let_def split: option.splits if_splits)

lemma map_of_fields_list:
  "f \<in> set fs \<Longrightarrow> map_of (map (\<lambda>f. (f, g f)) fs) f = Some (g f)"
  by (induction fs) auto

lemma init_Inr:
  "init si c side raw = Inr r \<longleftrightarrow>
     (\<exists>d. set_record si c raw = Inr d \<and> r = Robj c side True d)"
  by (auto simp: init_def split: sum.splits)

lemma set_record_perm:
  assumes "distinct (map fst raw)" "distinct (map fst raw')" "set raw' = set raw"
  shows "set_record si c raw' = set_record si c raw \<or>
     (rfields c = None \<or> rfields c = Some [])"
proof -
  have m: "map_of raw' = map_of raw" using assms by (simp add: map_of_inject_set)
  show ?thesis
  proof (cases "rfields c")
    case None
    then show ?thesis by simp
  next
    case (Some fs)
    then show ?thesis using set_record_cong_fields [OF m Some] by (cases "fs = []") auto
  qed
qed

text \<open>
  Claim C8. For a class that declares \<^verbatim>\<open>fields\<close> (a non-empty sequence of distinct
  names) and keyword arguments that pass validation, the keys and the iteration order
  of the constructed record are the declared fields in their declared order, each field
  holds the value supplied for it, a field that was not supplied is present with the
  value \<^verbatim>\<open>None\<close>, and the same arguments supplied in any other order construct the
  same record.
\<close>

theorem field_order_determinism:
  assumes "rfields c = Some fs" and "fs \<noteq> []" and "distinct fs"
    and "init set_iter c side raw = Inr r"
  shows "keys r = fs \<and> iter r = fs
    \<and> (\<forall>f \<in> set fs. map_of (rdata r) f = Some (dict_get raw f PNone))
    \<and> (\<forall>f \<in> set fs. f \<notin> fst ` set raw \<longrightarrow> map_of (rdata r) f = Some PNone)
    \<and> (\<forall>raw'. distinct (map fst raw) \<and> distinct (map fst raw') \<and> set raw' = set raw
          \<longrightarrow> init set_iter c side raw' = Inr r)"
proof -
  let ?ps = "map (\<lambda>f. (f, dict_get raw f PNone)) fs"
  from assms(4) obtain d where d: "set_record set_iter c raw = Inr d" "r = Robj c side True d"
    by (auto simp: init_Inr)
  have "d = dict_of ?ps" using set_record_fields_Inr [OF assms(1,2) d(1)] .
  moreover have "distinct (map fst ?ps)" using assms(3) by (simp add: comp_def)
  ultimately have dd: "d = ?ps" by (simp add: dict_of_distinct)
  have k: "map fst d = fs" by (simp add: dd comp_def)
  have v: "\<forall>f \<in> set fs. map_of (rdata r) f = Some (dict_get raw f PNone)"
    using d(2) dd by (simp add: map_of_fields_list)
  have n: "\<forall>f \<in> set fs. f \<notin> fst ` set raw \<longrightarrow> map_of (rdata r) f = Some PNone"
  proof (intro ballI impI)
    fix f assume "f \<in> set fs" "f \<notin> fst ` set raw"
    then have "map_of raw f = None" by (simp add: keys_dom domIff)
    then have "dict_get raw f PNone = PNone" by (simp add: dict_get_def)
    with v \<open>f \<in> set fs\<close> show "map_of (rdata r) f = Some PNone" by simp
  qed
  have p: "\<forall>raw'. distinct (map fst raw) \<and> distinct (map fst raw') \<and> set raw' = set raw
          \<longrightarrow> init set_iter c side raw' = Inr r"
  proof (intro allI impI)
    fix raw' assume "distinct (map fst raw) \<and> distinct (map fst raw') \<and> set raw' = set raw"
    then have "set_record set_iter c raw' = set_record set_iter c raw"
      using set_record_perm [of raw raw' set_iter c] assms(1,2) by auto
    then show "init set_iter c side raw' = Inr r"
      using assms(4) by (simp add: init_def)
  qed
  from k v n p d(2) show ?thesis by (simp add: keys_def iter_def)
qed

theorem field_order_determinism_witness:
  "init py_sorted FieldRecord (side_attrs (PStr ''red'') (PInt 1)) [(''b'', PInt 3), (''a'', PInt 2)]
     = Inr (Robj FieldRecord (side_attrs (PStr ''red'') (PInt 1)) True
         [(''a'', PInt 2), (''b'', PInt 3), (''c'', PNone)])
   \<and> keys (Robj FieldRecord (side_attrs (PStr ''red'') (PInt 1)) True
         [(''a'', PInt 2), (''b'', PInt 3), (''c'', PNone)]) = [''a'', ''b'', ''c'']
   \<and> init py_sorted FieldRecord (side_attrs (PStr ''red'') (PInt 1)) [(''a'', PInt 2), (''b'', PInt 3)]
     = Inr (Robj FieldRecord (side_attrs (PStr ''red'') (PInt 1)) True
         [(''a'', PInt 2), (''b'', PInt 3), (''c'', PNone)])"
proof -
  let ?side = "side_attrs (PStr ''red'') (PInt 1)"
  let ?r = "Robj FieldRecord ?side True [(''a'', PInt 2), (''b'', PInt 3), (''c'', PNone)]"
  have f: "rfields FieldRecord = Some [''a'', ''b'', ''c'']" by (simp add: FieldRecord_def)
  have h: "init py_sorted FieldRecord ?side [(''b'', PInt 3), (''a'', PInt 2)] = Inr ?r"
    by (simp add: init_def set_record_def check_non_null_def getattr_fields_def
        getattr_non_null_fields_def FieldRecord_def py_sorted_def dict_of_def dict_update_def
        dict_get_def self_require_all_fields_def Let_def psubset_eq)
  have "distinct [(''b''), ''a''] \<and> distinct [''a'', ''b''] \<and>
      set [(''a'', PInt 2), (''b'', PInt 3)] = set [(''b'', PInt 3), (''a'', PInt 2)]" by auto
  with field_order_determinism [OF f _ _ h] h show ?thesis by simp
qed

lemma set_record_cong_Inl:
  assumes "map_of a = map_of b"
  shows "set_record si c a = Inl e \<longleftrightarrow> set_record si c b = Inl e"
proof (cases "rfields c = None \<or> rfields c = Some []")
  case True
  then show ?thesis
    by (simp add: set_record_no_fields check_non_null_cong [OF assms] split: option.splits)
next
  case False
  then obtain fs where "rfields c = Some fs" "fs \<noteq> []" by auto
  from set_record_cong_fields [OF assms this] show ?thesis by simp
qed

lemma set_record_distinct:
  "set_record si c raw = Inr d \<Longrightarrow> distinct (map fst d)"
  by (auto simp: set_record_def Let_def distinct_dict_of split: option.splits if_splits)

lemma init_distinct: "init si c side raw = Inr r \<Longrightarrow> distinct (map fst (rdata r))"
  by (auto simp: init_Inr set_record_distinct)

lemma init_cls: "init si c side raw = Inr r \<Longrightarrow> cls r = c \<and> initialized r \<and> attrs r = side"
  by (auto simp: init_Inr)

lemma map_of_rev_distinct: "distinct (map fst xs) \<Longrightarrow> map_of (rev xs) = map_of xs"
proof -
  assume d: "distinct (map fst xs)"
  then have "distinct (map fst (rev xs))" by (simp add: rev_map [symmetric])
  from this d show ?thesis by (simp add: map_of_inject_set)
qed

lemma map_of_fd_copy:
  assumes "distinct (map fst d)" "distinct (map fst ov)"
  shows "map_of (fd_copy d ov) = map_of d ++ map_of ov"
  using assms by (simp add: fd_copy_def dict_of_distinct map_of_dict_update map_of_rev_distinct)

text \<open>
  Claim C2. For a constructed record and keyword arguments \<open>overrides\<close>,
  \<^verbatim>\<open>copy_record\<close> validates the record's data merged with the overrides against the
  class of the record: its result is the error, or the data of the record, that a fresh
  construction from the merged dictionary gives; in the merged dictionary an override
  wins over the record's value; and a fresh construction from any dictionary with these
  key/value pairs, whatever its order, raises exactly the same error.
\<close>

theorem copy_record_revalidates:
  assumes "init set_iter c side kwargs = Inr r"
    and "distinct (map fst overrides)"
  shows "copy_record set_iter r overrides =
      (case init set_iter c side' (fd_copy (rdata r) overrides) of
         Inl e \<Rightarrow> Inl e
       | Inr r' \<Rightarrow> Inr (rdata r'))
    \<and> map_of (fd_copy (rdata r) overrides) = map_of (rdata r) ++ map_of overrides
    \<and> (\<forall>merged e. map_of merged = map_of (rdata r) ++ map_of overrides \<longrightarrow>
          (copy_record set_iter r overrides = Inl e \<longleftrightarrow> init set_iter c side' merged = Inl e))"
proof -
  have c: "cls r = c" using assms(1) by (simp add: init_cls)
  have m: "map_of (fd_copy (rdata r) overrides) = map_of (rdata r) ++ map_of overrides"
    using init_distinct [OF assms(1)] assms(2) by (rule map_of_fd_copy)
  have a: "copy_record set_iter r overrides =
      (case init set_iter c side' (fd_copy (rdata r) overrides) of
         Inl e \<Rightarrow> Inl e
       | Inr r' \<Rightarrow> Inr (rdata r'))"
    by (simp add: copy_record_def init_def c split: sum.splits)
  have b: "copy_record set_iter r overrides = Inl e \<longleftrightarrow> init set_iter c side' merged = Inl e"
    if "map_of merged = map_of (rdata r) ++ map_of overrides" for merged e
  proof -
    from that m have "map_of (fd_copy (rdata r) overrides) = map_of merged" by simp
    from set_record_cong_Inl [OF this] show ?thesis
      by (auto simp: copy_record_def init_def c split: sum.splits)
  qed
  from a m b show ?thesis by blast
qed

theorem copy_record_revalidates_witness:
  "copy_record py_sorted
      (Robj FieldRecord (side_attrs (PStr ''red'') (PInt 1)) True
         [(''a'', PInt 2), (''b'', PInt 3), (''c'', PInt 4)])
      [(''a'', PNone)]
     = Inl (KeyError ''The following field can not be None: a'')
   \<and> init py_sorted FieldRecord (side_attrs (PStr ''blue'') (PInt 2))
       [(''c'', PInt 4), (''b'', PInt 3), (''a'', PNone)]
     = Inl (KeyError ''The following field can not be None: a'')"
proof -
  let ?side = "side_attrs (PStr ''red'') (PInt 1)"
  let ?r = "Robj FieldRecord ?side True [(''a'', PInt 2), (''b'', PInt 3), (''c'', PInt 4)]"
  have h: "init py_sorted FieldRecord ?side [(''a'', PInt 2), (''b'', PInt 3), (''c'', PInt 4)]
      = Inr ?r"
    by (simp add: init_def set_record_def check_non_null_def getattr_fields_def
        getattr_non_null_fields_def FieldRecord_def py_sorted_def dict_of_def dict_update_def
        dict_get_def self_require_all_fields_def Let_def psubset_eq)
  have d: "distinct (map fst [(''a'', PNone)])" by simp
  have e: "init py_sorted FieldRecord (side_attrs (PStr ''blue'') (PInt 2))
       [(''c'', PInt 4), (''b'', PInt 3), (''a'', PNone)]
     = Inl (KeyError ''The following field can not be None: a'')"
    by (simp add: init_def set_record_def check_non_null_def getattr_fields_def
        getattr_non_null_fields_def FieldRecord_def py_sorted_def dict_of_def dict_update_def
        dict_get_def self_require_all_fields_def Let_def psubset_eq)
  have mm: "map_of [(''c'', PInt 4), (''b'', PInt 3), (''a'', PNone)]
      = map_of (rdata ?r) ++ map_of [(''a'', PNone)]"
    by (rule ext) simp
  from copy_record_revalidates [OF h d, of "side_attrs (PStr ''blue'') (PInt 2)"] mm e
  show ?thesis by blast
qed







subsection \<open>Error messages of the non-null checks\<close>










subsection \<open>Immutability\<close>

lemma attempt_sealed: "initialized self \<Longrightarrow> snd (attempt m self) = self"
  by (cases m) (simp_all add: setattr_def delattr_def setitem_def delitem_def)

lemma attempts_sealed: "initialized self \<Longrightarrow> attempts ms self = self"
  by (induction ms) (simp_all add: attempt_sealed)

text \<open>
  Claim C6. On a constructed record every attempt to set or delete an attribute or an
  item raises \<^verbatim>\<open>TypeError\<close> and returns the object as it was; the message of the
  attribute path differs from that of the item path; and after any sequence of such
  attempts the object, with its data and its side attributes, is the one constructed.
\<close>

theorem immutability:
  assumes "init set_iter c side kwargs = Inr r"
  shows "setattr r name v = (Some (TypeError (quoted (cname c)
           @ '' object does not support attribute assignment'')), r)
    \<and> delattr r name = (Some (TypeError (quoted (cname c)
           @ '' object does not support attribute deletion'')), r)
    \<and> setitem r name v = (Some (TypeError (quoted (cname c)
           @ '' object does not support item assignment'')), r)
    \<and> delitem r name = (Some (TypeError (quoted (cname c)
           @ '' object does not support item deletion'')), r)
    \<and> fst (setattr r name v) \<noteq> fst (setitem r name v)
    \<and> fst (delattr r name) \<noteq> fst (delitem r name)
    \<and> attempts ms r = r
    \<and> rdata (attempts ms r) = rdata r \<and> attrs (attempts ms r) = side"
proof -
  from assms have r: "cls r = c" "initialized r" "attrs r = side" by (simp_all add: init_cls)
  have a: "attempts ms r = r" using r(2) by (rule attempts_sealed)
  show ?thesis unfolding a using r
    by (simp add: setattr_def delattr_def setitem_def delitem_def)
qed

theorem immutability_witness:
  "setattr (Robj TstRecord (side_attrs (PStr ''service'') (PStr ''test'')) True
       [(''color'', PStr ''red''), (''number'', PInt 10)]) ''test'' (PInt 1)
     = (Some (TypeError (quoted ''TstRecord'' @ '' object does not support attribute assignment'')),
        Robj TstRecord (side_attrs (PStr ''service'') (PStr ''test'')) True
          [(''color'', PStr ''red''), (''number'', PInt 10)])
   \<and> delitem (Robj TstRecord (side_attrs (PStr ''service'') (PStr ''test'')) True
       [(''color'', PStr ''red''), (''number'', PInt 10)]) ''number''
     = (Some (TypeError (quoted ''TstRecord'' @ '' object does not support item deletion'')),
        Robj TstRecord (side_attrs (PStr ''service'') (PStr ''test'')) True
          [(''color'', PStr ''red''), (''number'', PInt 10)])"
proof -
  let ?side = "side_attrs (PStr ''service'') (PStr ''test'')"
  let ?r = "Robj TstRecord ?side True [(''color'', PStr ''red''), (''number'', PInt 10)]"
  have h: "init py_sorted TstRecord ?side [(''color'', PStr ''red''), (''number'', PInt 10)]
      = Inr ?r"
    by (simp add: init_def set_record_def check_non_null_def getattr_fields_def
        getattr_non_null_fields_def TstRecord_def dict_of_def dict_update_def Let_def)
  have n: "cname TstRecord = ''TstRecord''" by (simp add: TstRecord_def)
  from immutability [OF h, of "''test''" "PInt 1" "[]", unfolded n]
  have "setattr ?r ''test'' (PInt 1)
     = (Some (TypeError (quoted ''TstRecord'' @ '' object does not support attribute assignment'')), ?r)"
    by (rule conjunct1)
  moreover from immutability [OF h, of "''number''" "PInt 1" "[]", unfolded n]
  have "delitem ?r ''number''
     = (Some (TypeError (quoted ''TstRecord'' @ '' object does not support item deletion'')), ?r)"
    by (elim conjE)
  ultimately show ?thesis by (rule conjI)
qed

subsection \<open>Equality and hashing\<close>










subsection \<open>Hash index keys\<close>

lemma field_values_char:
  "field_values repr_of values_dict fs =
    (case find (\<lambda>f. \<not> is_sequence_or_int (dict_get values_dict f PNone))
            (filter (\<lambda>f. truthy (dict_get values_dict f PNone)) fs) of
       Some f \<Rightarrow> Inl (ValueError (''Fields that return unordered value types cannot be used ''
         @ ''to create hash keys. field: '' @ f))
     | None \<Rightarrow> Inr (map (\<lambda>f. f @ '':'' @ py_format repr_of (dict_get values_dict f PNone))
         (filter (\<lambda>f. truthy (dict_get values_dict f PNone)) fs)))"
proof (induction fs)
  case Nil
  then show ?case by simp
next
  case (Cons f fs)
  show ?case
  proof (cases "truthy (dict_get values_dict f PNone)")
    case False
    then show ?thesis using Cons.IH by (simp add: Let_def cong: option.case_cong)
  next
    case True
    show ?thesis
    proof (cases "is_sequence_or_int (dict_get values_dict f PNone)")
      case False
      with True show ?thesis by (simp add: Let_def cong: option.case_cong)
    next
      case seq: True
      with True show ?thesis using Cons.IH
        by (simp add: Let_def split: option.splits cong: option.case_cong)
    qed
  qed
qed

text \<open>
  Claim C3, amended. The key is \<^verbatim>\<open>None\<close> when \<^verbatim>\<open>fields\<close> is empty, the values are
  empty, or no field survives. A field survives when its looked-up value is true in a
  boolean context: \<^verbatim>\<open>None\<close>, empty strings and containers, the integer 0,
  \<^verbatim>\<open>False\<close> and empty records are skipped without error. If some surviving value is
  neither a string, list or tuple nor an integer, the call fails with the
  \<^verbatim>\<open>ValueError\<close> that names the first such field. Otherwise the key is the prefix, which
  is \<^verbatim>\<open>obj_type:obj_id\<close> when an id other than 0 is supplied and \<^verbatim>\<open>obj_type\<close> if not,
  followed by \<^verbatim>\<open>:field:value\<close> for every surviving field in the order of \<^verbatim>\<open>fields\<close>.
\<close>

theorem generate_hash_index_key_result:
  fixes values_dict :: pydict
  defines "val \<equiv> \<lambda>f. dict_get values_dict f PNone"
  defines "survivors \<equiv> \<lambda>fs. filter (\<lambda>f. truthy (val f)) fs"
  shows "generate_hash_index_key repr_of obj_type fs values_dict obj_id =
    (if fs = [] \<or> values_dict = [] \<or> survivors fs = [] then Inr None
     else case find (\<lambda>f. \<not> is_sequence_or_int (val f)) (survivors fs) of
         Some f \<Rightarrow> Inl (ValueError (''Fields that return unordered value types cannot be used ''
           @ ''to create hash keys. field: '' @ f))
       | None \<Rightarrow> Inr (Some (
           (case obj_id of
              Some i \<Rightarrow> if i \<noteq> 0 then obj_type @ '':'' @ str_int i else obj_type
            | None \<Rightarrow> obj_type)
           @ '':'' @ join '':'' (map (\<lambda>f. f @ '':'' @ py_format repr_of (val f)) (survivors fs)))))"
  unfolding generate_hash_index_key_def field_values_char val_def survivors_def
  by (simp add: Let_def split: option.splits)

theorem generate_hash_index_key_result_witness:
  "generate_hash_index_key plain_repr ''Book'' [''isbn'', ''title'']
     [(''isbn'', PStr ''978-1-61902-786-2''), (''title'', PStr ''Moshi Moshi'')] (Some 1)
   = Inr (Some ''Book:1:isbn:978-1-61902-786-2:title:Moshi Moshi'')
   \<and> generate_hash_index_key plain_repr ''Book'' [''isbn'', ''title'']
     [(''isbn'', PStr ''978-1-61902-786-2''), (''title'', PNone)] None
   = Inr (Some ''Book:isbn:978-1-61902-786-2'')
   \<and> generate_hash_index_key plain_repr ''Book'' [''isbn'', ''tags'']
     [(''isbn'', PStr ''978-1-61902-786-2''), (''tags'', PSet [PStr ''x''])] None
   = Inl (ValueError
       ''Fields that return unordered value types cannot be used to create hash keys. field: tags'')"
  unfolding generate_hash_index_key_result
  by (simp add: dict_get_def str_int_def str_nat.simps)

text \<open>
  The claim as stated fails for values that are false in a boolean context without being
  null or empty: a field holding the integer 0 is left out of the key, and an object id
  of 0 is left out of the prefix.
\<close>

theorem generate_hash_index_key_counterexample:
  "generate_hash_index_key plain_repr ''Book'' [''isbn'', ''copies'']
     [(''isbn'', PStr ''978-1-61902-786-2''), (''copies'', PInt 0)] None
   = Inr (Some ''Book:isbn:978-1-61902-786-2'')
   \<and> generate_hash_index_key plain_repr ''Book'' [''isbn'']
     [(''isbn'', PStr ''978-1-61902-786-2'')] (Some 0)
   = Inr (Some ''Book:isbn:978-1-61902-786-2'')"
  by (simp add: generate_hash_index_key_def dict_get_def)

text \<open>
  Claim C4 fails on the code. \<^verbatim>\<open>get_hash_index_key\<close> merges the named side attributes
  into the record through \<^verbatim>\<open>copy_record\<close>, which validates the merged keys against
  \<^verbatim>\<open>fields\<close>. For a subclass of \<^verbatim>\<open>FieldRecord\<close> with
  \<^verbatim>\<open>hash_index_fields = ('test', 'a', 'b')\<close> the side attribute \<^verbatim>\<open>test\<close> is an extra
  key and the call raises \<^verbatim>\<open>KeyError\<close>; for \<^verbatim>\<open>HashIndexSlotsRecord\<close>, which declares no
  \<^verbatim>\<open>fields\<close>, the same call returns the key.
\<close>

theorem get_hash_index_key_slot_with_fields:
  "get_hash_index_key py_sorted plain_repr
      (Robj (FieldRecord\<lparr>hash_index_fields := Some [''test'', ''a'', ''b'']\<rparr>)
         (side_attrs (PStr ''service'') (PStr ''test'')) True
         [(''a'', PInt 1), (''b'', PInt 2), (''c'', PNone)])
     = Inl (KeyError
         ''Extra keys: test. Only the following keys can be used in the record: a, b, c'')
   \<and> get_hash_index_key py_sorted plain_repr
      (Robj HashIndexSlotsRecord (side_attrs (PStr ''service'') (PStr ''test'')) True
         [(''a'', PInt 1), (''b'', PInt 2)])
     = Inr (Some ''HashIndexSlotsRecord:test:test:a:1:b:2'')"
proof -
  have bad: "get_hash_index_key py_sorted plain_repr
      (Robj (FieldRecord\<lparr>hash_index_fields := Some [''test'', ''a'', ''b'']\<rparr>)
         (side_attrs (PStr ''service'') (PStr ''test'')) True
         [(''a'', PInt 1), (''b'', PInt 2), (''c'', PNone)])
     = Inl (KeyError
         ''Extra keys: test. Only the following keys can be used in the record: a, b, c'')"
    by code_simp
  have good: "get_hash_index_key py_sorted plain_repr
      (Robj HashIndexSlotsRecord (side_attrs (PStr ''service'') (PStr ''test'')) True
         [(''a'', PInt 1), (''b'', PInt 2)])
     = Inr (Some ''HashIndexSlotsRecord:test:test:a:1:b:2'')"
    by code_simp
  from bad good show ?thesis by (rule conjI)
qed

subsection \<open>Serialization\<close>










lemma constructed_revalidates:
  assumes i: "init set_iter c side kwargs = Inr r"
    and dk: "distinct (map fst kwargs)"
    and nn: "getattr_fields c \<noteq> [] \<longrightarrow>
       set (getattr_non_null_fields c) \<subseteq> set (getattr_fields c)"
  shows "copy_record set_iter r [] = Inr (rdata r)"
proof -
  from i obtain d where d: "set_record set_iter c kwargs = Inr d" "r = Robj c side True d"
    by (auto simp: init_Inr)
  have dd: "distinct (map fst d)" using d(1) by (rule set_record_distinct)
  then have cp: "fd_copy d [] = d" by (simp add: fd_copy_def dict_of_distinct dict_update_def)
  from d(1) have ok: "check_non_null (set (getattr_non_null_fields c)) kwargs = None"
    by (auto simp: set_record_def Let_def split: option.splits)
  have "set_record set_iter c d = Inr d"
  proof (cases "getattr_fields c = []")
    case True
    with d(1) have "d = dict_of kwargs"
      by (auto simp: set_record_def Let_def split: option.splits)
    then have "d = kwargs" using dk by (simp add: dict_of_distinct)
    with d(1) show ?thesis by simp
  next
    case False
    let ?fs = "getattr_fields c"
    let ?ps = "map (\<lambda>field. (field, dict_get kwargs field PNone)) ?fs"
    from False d(1) have e: "d = dict_of ?ps"
      by (auto simp: set_record_def Let_def split: option.splits if_splits)
    have k: "fst ` set d = set ?fs"
      by (simp add: e dict_of_def keys_dict_update image_image)
    have m: "map_of d f = Some (dict_get kwargs f PNone)" if "f \<in> set ?fs" for f
    proof -
      have "rev ?ps = map (\<lambda>field. (field, dict_get kwargs field PNone)) (rev ?fs)"
        by (simp add: rev_map)
      then have "map_of (rev ?ps) f = Some (dict_get kwargs f PNone)"
        using that map_of_fields_list [of f "rev ?fs" "\<lambda>field. dict_get kwargs field PNone"]
        by simp
      then show ?thesis by (simp add: e dict_of_def map_of_dict_update)
    qed
    have g: "dict_get d f PNone = dict_get kwargs f PNone" if "f \<in> set ?fs" for f
      using m [OF that] by (simp add: dict_get_def)
    have c: "check_non_null (set (getattr_non_null_fields c)) d = None"
    proof -
      have "\<exists>v. map_of d f = Some v \<and> v \<noteq> PNone" if "f \<in> set (getattr_non_null_fields c)" for f
      proof -
        from ok that obtain v where v: "map_of kwargs f = Some v" "v \<noteq> PNone"
          by (auto simp: check_non_null_None_iff)
        from that nn False have "f \<in> set ?fs" by blast
        from m [OF this] v show ?thesis by (simp add: dict_get_def)
      qed
      then show ?thesis by (simp add: check_non_null_None_iff)
    qed
    have mp: "map (\<lambda>field. (field, dict_get d field PNone)) ?fs = ?ps"
      using g by (intro map_cong) simp_all
    have "dict_of (map (\<lambda>field. (field, dict_get d field PNone)) ?fs) = d"
      unfolding mp by (rule e [symmetric])
    then show ?thesis
      using False c k by (simp add: set_record_def Let_def)
  qed
  then show ?thesis by (simp add: copy_record_def d(2) cp)
qed

lemma constructed_serializable:
  assumes "init set_iter c side kwargs = Inr r"
    and "distinct (map fst kwargs)"
    and "getattr_fields c \<noteq> [] \<longrightarrow>
       set (getattr_non_null_fields c) \<subseteq> set (getattr_fields c)"
    and "list_all (\<lambda>(key, val). serializable set_iter True val) (rdata r)"
  shows "serializable set_iter True (PRec r)"
  using constructed_revalidates [OF assms(1-3)] assms(4) by (cases r) simp




end
